theory Spec2Isabelle
  imports Main "HOL-Library.AList" "HOL-Library.Multiset"
begin

section \<open>Values the program handles\<close>

text \<open>
  The program is \<^verbatim>\<open>streamlit_app_vP.py\<close>. Its functions return nothing to
  their caller in the error case: they report through \<^verbatim>\<open>st.info\<close>,
  \<^verbatim>\<open>st.success\<close> and \<^verbatim>\<open>st.error\<close>. A notice is one such call with its text
  (for an f-string that interpolates an exception, the fixed prefix). An exception
  that leaves a function uncaught is a \<open>py_error\<close>.

  Text is \<open>string\<close>, read as a sequence of code points below 256.
\<close>

datatype notice = St_info string | St_success string | St_error string

datatype py_error = ZeroDivisionError | FileNotFoundError

section \<open>The calendar of the datetime module\<close>

text \<open>
  \<^verbatim>\<open>is_leap_year\<close> is the program's own function (line 158). The year is
  \<^verbatim>\<open>date.today().year\<close>, which lies in 1..9999, so a natural number.
\<close>

definition is_leap_year :: "nat \<Rightarrow> bool" where
  "is_leap_year yr \<longleftrightarrow> yr mod 4 = 0 \<and> (yr mod 100 \<noteq> 0 \<or> yr mod 400 = 0)"

text \<open>
  A \<^verbatim>\<open>datetime.date\<close> is (year, month, day). The library's own calendar
  (\<^verbatim>\<open>_is_leap\<close>, \<^verbatim>\<open>_days_in_month\<close>, \<^verbatim>\<open>_days_before_month\<close>) is
  written out with its tables; adding a \<^verbatim>\<open>timedelta\<close> of \<open>n\<close> days is
  \<open>n\<close> steps to the next calendar day, which is what the library's round trip
  through ordinals computes. \<^verbatim>\<open>timetuple().tm_yday\<close> is
  \<^verbatim>\<open>_days_before_month(y, m) + d\<close>. The tables' entry 0 pads them so that a
  month is its own index; months are 1..12 and it is never read.
\<close>

type_synonym date = "nat \<times> nat \<times> nat"

definition py_is_leap :: "nat \<Rightarrow> bool" where
  "py_is_leap yr \<longleftrightarrow> yr mod 4 = 0 \<and> (yr mod 100 \<noteq> 0 \<or> yr mod 400 = 0)"

definition days_in_month :: "nat \<Rightarrow> nat \<Rightarrow> nat" where
  "days_in_month yr mo =
     (if mo = 2 \<and> py_is_leap yr then 29
      else [0, 31, 28, 31, 30, 31, 30, 31, 31, 30, 31, 30, 31] ! mo)"

definition days_before_month :: "nat \<Rightarrow> nat \<Rightarrow> nat" where
  "days_before_month yr mo =
     [0, 0, 31, 59, 90, 120, 151, 181, 212, 243, 273, 304, 334] ! mo
       + (if mo > 2 \<and> py_is_leap yr then 1 else 0)"

text \<open>The calendar's own length of a year.\<close>

definition year_length :: "nat \<Rightarrow> nat" where
  "year_length yr = (if py_is_leap yr then 366 else 365)"

definition valid_date :: "date \<Rightarrow> bool" where
  "valid_date dt =
     (case dt of (yr, mo, dy) \<Rightarrow>
        1 \<le> mo \<and> mo \<le> 12 \<and> 1 \<le> dy \<and> dy \<le> days_in_month yr mo)"

fun next_day :: "date \<Rightarrow> date" where
  "next_day (yr, mo, dy) =
     (if dy < days_in_month yr mo then (yr, mo, dy + 1)
      else if mo < 12 then (yr, mo + 1, 1)
      else (yr + 1, 1, 1))"

fun add_days :: "date \<Rightarrow> nat \<Rightarrow> date" where
  "add_days dt 0 = dt"
| "add_days dt (Suc n) = next_day (add_days dt n)"

fun tm_yday :: "date \<Rightarrow> nat" where
  "tm_yday (yr, mo, dy) = days_before_month yr mo + dy"

text \<open>\<^verbatim>\<open>date.today().replace(month=1, day=1)\<close>\<close>

fun replace_jan1 :: "date \<Rightarrow> date" where
  "replace_jan1 (yr, mo, dy) = (yr, 1, 1)"

text \<open>
  \<^verbatim>\<open>strftime("%Y-%m-%d")\<close>: the year in four digits (years 1000..9999 have
  exactly four), month and day zero-padded to two.
\<close>

definition digit_char :: "nat \<Rightarrow> char" where
  "digit_char k = char_of (48 + k)"

definition zero_pad2 :: "nat \<Rightarrow> string" where
  "zero_pad2 n = [digit_char (n div 10 mod 10), digit_char (n mod 10)]"

definition zero_pad4 :: "nat \<Rightarrow> string" where
  "zero_pad4 n = [digit_char (n div 1000 mod 10), digit_char (n div 100 mod 10),
                  digit_char (n div 10 mod 10), digit_char (n mod 10)]"

fun strftime_ymd :: "date \<Rightarrow> string" where
  "strftime_ymd (yr, mo, dy) = zero_pad4 yr @ ''-'' @ zero_pad2 mo @ ''-'' @ zero_pad2 dy"

section \<open>The date-question mapping\<close>

text \<open>
  The mapping is a Python dict from date text to question: an association list with
  distinct keys in insertion order, \<open>mapping[k] = v\<close> being \<open>AList.update\<close>.

  The workbook \<^verbatim>\<open>questions_list.xlsx\<close> is an input: either
  \<^verbatim>\<open>pd.ExcelFile\<close> raises, or it gives the parsed sheets, each a data frame
  (a list of columns, a cell being \<open>None\<close> where pandas has NaN).
\<close>

type_synonym question_mapping = "(string \<times> string) list"

type_synonym dataframe = "string option list list"

datatype excel_file = Unreadable | Workbook "dataframe list"

text \<open>
  \<^verbatim>\<open>df.iloc[:, 0].dropna().tolist()\<close>; a frame with no column raises IndexError,
  which the \<^verbatim>\<open>except Exception\<close> around the loop catches (\<open>None\<close>).
\<close>

fun first_column :: "dataframe \<Rightarrow> string list option" where
  "first_column [] = None"
| "first_column (col # cols) = Some (List.map_filter (\<lambda>cell. cell) col)"

fun extend_questions :: "dataframe list \<Rightarrow> string list \<Rightarrow> string list option" where
  "extend_questions [] all_questions = Some all_questions"
| "extend_questions (df # dfs) all_questions =
     (case first_column df of
        None \<Rightarrow> None
      | Some questions \<Rightarrow> extend_questions dfs (all_questions @ questions))"

fun read_questions :: "excel_file \<Rightarrow> string list option" where
  "read_questions Unreadable = None"
| "read_questions (Workbook sheets) = extend_questions sheets []"

text \<open>
  The loop of lines 146 to 150 over \<^verbatim>\<open>range(days_in_year)\<close>. The modulo by
  \<^verbatim>\<open>len(all_questions)\<close> raises ZeroDivisionError on an empty list; the index
  is below the length otherwise.
\<close>

fun assign_days ::
  "string list \<Rightarrow> date \<Rightarrow> nat list \<Rightarrow> question_mapping \<Rightarrow> py_error + question_mapping" where
  "assign_days all_questions today [] mapping = Inr mapping"
| "assign_days all_questions today (n # ns) mapping =
     (let single_date = add_days (replace_jan1 today) n;
          date_str = strftime_ymd single_date
      in if length all_questions = 0 then Inl ZeroDivisionError
         else assign_days all_questions today ns
                (AList.update date_str
                   (all_questions ! ((tm_yday single_date - 1) mod length all_questions))
                   mapping))"

text \<open>
  The files under \<^verbatim>\<open>data/\<close>: whether the directory exists, and the mapping
  file \<^verbatim>\<open>data/date_questions_vP.json\<close>, absent (\<open>None\<close>) or holding either
  the JSON object of a mapping or something \<^verbatim>\<open>json.load\<close> raises on (also a
  file that cannot be read). \<^verbatim>\<open>json.dump\<close> then \<^verbatim>\<open>json.load\<close> gives a
  dict of strings back as it was, so the file's content is the mapping.
\<close>

datatype file_content = Parsed question_mapping | Unparseable

record files =
  data_dir :: bool
  mapping_file :: "file_content option"

text \<open>
  \<^verbatim>\<open>load_and_assign_questions\<close> (line 122). \<^verbatim>\<open>random.shuffle\<close> is the
  parameter \<open>shuffle\<close>, \<^verbatim>\<open>date.today()\<close> the parameter \<open>today\<close>: one value
  for the whole call, the calls of one run falling on one day. The result is what the
  function returns or raises, the notices it shows, and the files after it.
\<close>

definition load_and_assign_questions ::
  "excel_file \<Rightarrow> (string list \<Rightarrow> string list) \<Rightarrow> date \<Rightarrow> files
     \<Rightarrow> (py_error + question_mapping) \<times> notice list \<times> files" where
  "load_and_assign_questions xl shuffle today fs =
     (case read_questions xl of
        None \<Rightarrow> (Inr [], [St_error ''Error reading Excel file: ''], fs)
      | Some loaded \<Rightarrow>
          let all_questions = shuffle loaded;
              days_in_year = (if is_leap_year (fst today) then 366 else 365)
          in (case assign_days all_questions today [0..<days_in_year] [] of
                Inl e \<Rightarrow> (Inl e, [], fs)
              | Inr mapping \<Rightarrow>
                  if data_dir fs
                  then (Inr mapping, [], fs\<lparr>mapping_file := Some (Parsed mapping)\<rparr>)
                  else (Inl FileNotFoundError, [], fs)))"

text \<open>
  \<^verbatim>\<open>load_question_mapping\<close> (line 162). A directory that
  \<^verbatim>\<open>os.makedirs\<close> has just made holds no file.
\<close>

definition makedirs_data :: "files \<Rightarrow> files" where
  "makedirs_data fs =
     (if \<not> data_dir fs then \<lparr>data_dir = True, mapping_file = None\<rparr> else fs)"

definition load_question_mapping ::
  "excel_file \<Rightarrow> (string list \<Rightarrow> string list) \<Rightarrow> date \<Rightarrow> files
     \<Rightarrow> (py_error + question_mapping) \<times> notice list \<times> files" where
  "load_question_mapping xl shuffle today fs0 =
     (let fs = makedirs_data fs0 in
      case mapping_file fs of
        None \<Rightarrow>
          (case load_and_assign_questions xl shuffle today fs of
             (Inl e, shown, fs') \<Rightarrow>
               (Inl e, St_info ''Initializing date-question mapping...'' # shown, fs')
           | (Inr mapping, shown, fs') \<Rightarrow>
               (Inr mapping,
                St_info ''Initializing date-question mapping...'' # shown @
                  [if mapping \<noteq> []
                   then St_success ''Date-question mapping initialized successfully!''
                   else St_error ''Failed to initialize date-question mapping.''],
                fs'))
      | Some (Parsed mapping) \<Rightarrow> (Inr mapping, [], fs)
      | Some Unparseable \<Rightarrow>
          (Inr [], [St_error ''Error loading date-question mapping: ''], fs))"

text \<open>Line 271 of \<^verbatim>\<open>main\<close>: \<^verbatim>\<open>question_mapping.get(selected_date_str, ...)\<close>.\<close>

definition daily_question :: "question_mapping \<Rightarrow> string \<Rightarrow> string" where
  "daily_question mapping selected_date_str =
     (case map_of mapping selected_date_str of
        Some question \<Rightarrow> question
      | None \<Rightarrow> ''No question available for this date.'')"

section \<open>The message table\<close>

text \<open>
  The table \<^verbatim>\<open>messages\<close> of \<^verbatim>\<open>init_db\<close>: rows (id, sender, message,
  timestamp), with the counter AUTOINCREMENT keeps in \<^verbatim>\<open>sqlite_sequence\<close>
  (the largest id ever given out). The id of a new row is one more than the larger
  of that counter and the largest id in the table. Failures of the database engine
  itself (a full disk, a locked file, the id ceiling of 2^63 - 1) are not modelled.
\<close>

record message_row =
  row_id :: nat
  row_sender :: string
  row_message :: string
  row_timestamp :: string

record database =
  messages :: "message_row list"
  seq :: nat

definition init_db :: "database option \<Rightarrow> database" where
  "init_db existing =
     (case existing of None \<Rightarrow> \<lparr>messages = [], seq = 0\<rparr> | Some db \<Rightarrow> db)"

definition largest_rowid :: "message_row list \<Rightarrow> nat" where
  "largest_rowid rs = fold max (map row_id rs) 0"

definition insert_row :: "string \<Rightarrow> string \<Rightarrow> string \<Rightarrow> database \<Rightarrow> database" where
  "insert_row sender message ts db =
     (let new_id = Suc (max (seq db) (largest_rowid (messages db)))
      in \<lparr>messages = messages db @
            [\<lparr>row_id = new_id, row_sender = sender, row_message = message,
              row_timestamp = ts\<rparr>],
          seq = new_id\<rparr>)"

text \<open>
  \<^verbatim>\<open>send_message\<close> (line 47). \<open>chat_date_str\<close> is None or text, and an empty
  text is as false as None; \<open>now\<close> is what CURRENT_TIMESTAMP gives at the insert.
\<close>

definition send_message ::
  "string \<Rightarrow> string \<Rightarrow> string option \<Rightarrow> string \<Rightarrow> database \<Rightarrow> database" where
  "send_message sender message chat_date_str now db =
     (case chat_date_str of
        None \<Rightarrow> insert_row sender message now db
      | Some d \<Rightarrow>
          if d \<noteq> [] then insert_row sender message (d @ '' 00:00:00'') db
          else insert_row sender message now db)"

text \<open>
  SQLite's \<^verbatim>\<open>DATE()\<close> on the timestamps this program stores:
  \<^verbatim>\<open>YYYY-MM-DD\<close> of a calendar date, alone or followed by
  \<^verbatim>\<open> HH:MM:SS\<close> with the hour below 24. On such text it gives the date part, and
  NULL (\<open>None\<close>) on text that is no time value. Other spellings SQLite accepts
  (Julian day numbers, fractions of seconds, a day past the month's end) are outside
  this model.
\<close>

definition is_digit :: "char \<Rightarrow> bool" where
  "is_digit c \<longleftrightarrow> 48 \<le> (of_char c :: nat) \<and> (of_char c :: nat) \<le> 57"

definition digits_val :: "string \<Rightarrow> nat" where
  "digits_val s = foldl (\<lambda>acc c. 10 * acc + (of_char c - 48)) 0 s"

definition is_iso_date :: "string \<Rightarrow> bool" where
  "is_iso_date s \<longleftrightarrow>
     length s = 10 \<and> list_all is_digit (take 4 s) \<and> s ! 4 = CHR ''-'' \<and>
     list_all is_digit (take 2 (drop 5 s)) \<and> s ! 7 = CHR ''-'' \<and>
     list_all is_digit (drop 8 s) \<and>
     valid_date (digits_val (take 4 s), digits_val (take 2 (drop 5 s)), digits_val (drop 8 s))"

definition is_clock_time :: "string \<Rightarrow> bool" where
  "is_clock_time s \<longleftrightarrow>
     length s = 9 \<and> s ! 0 = CHR '' '' \<and>
     list_all is_digit (take 2 (drop 1 s)) \<and> s ! 3 = CHR '':'' \<and>
     list_all is_digit (take 2 (drop 4 s)) \<and> s ! 6 = CHR '':'' \<and>
     list_all is_digit (drop 7 s) \<and>
     digits_val (take 2 (drop 1 s)) < 24 \<and> digits_val (take 2 (drop 4 s)) < 60 \<and>
     digits_val (drop 7 s) < 60"

definition sql_DATE :: "string \<Rightarrow> string option" where
  "sql_DATE ts =
     (if is_iso_date (take 10 ts) \<and> (drop 10 ts = [] \<or> is_clock_time (drop 10 ts))
      then Some (take 10 ts) else None)"

text \<open>
  \<^verbatim>\<open>get_messages\<close> (line 64): the rows the query selects, in the order of
  \<^verbatim>\<open>ORDER BY id ASC\<close>. A comparison with NULL selects nothing.
\<close>

definition get_messages :: "string option \<Rightarrow> database \<Rightarrow> message_row list" where
  "get_messages selected_date db =
     (case selected_date of
        None \<Rightarrow> sort_key row_id (messages db)
      | Some d \<Rightarrow>
          if d \<noteq> []
          then sort_key row_id (filter (\<lambda>r. sql_DATE (row_timestamp r) = Some d) (messages db))
          else sort_key row_id (messages db))"

text \<open>\<^verbatim>\<open>SELECT sender FROM messages WHERE id = ?\<close> and \<^verbatim>\<open>fetchone()\<close>.\<close>

definition fetch_sender :: "nat \<Rightarrow> database \<Rightarrow> string option" where
  "fetch_sender message_id db =
     map_option row_sender (find (\<lambda>r. row_id r = message_id) (messages db))"

text \<open>\<^verbatim>\<open>delete_message\<close> (line 90) and \<^verbatim>\<open>edit_message\<close> (line 106).\<close>

definition delete_message :: "nat \<Rightarrow> string \<Rightarrow> database \<Rightarrow> notice \<times> database" where
  "delete_message message_id username db =
     (let result = fetch_sender message_id db in
      if (case result of None \<Rightarrow> False | Some s \<Rightarrow> s = username)
      then (St_success ''Message deleted successfully!'',
            db\<lparr>messages := filter (\<lambda>r. row_id r \<noteq> message_id) (messages db)\<rparr>)
      else (St_error ''You can only delete your own messages.'', db))"

definition edit_message :: "nat \<Rightarrow> string \<Rightarrow> string \<Rightarrow> database \<Rightarrow> notice \<times> database" where
  "edit_message message_id username new_message db =
     (let result = fetch_sender message_id db in
      if (case result of None \<Rightarrow> False | Some s \<Rightarrow> s = username)
      then (St_success ''Message updated successfully!'',
            db\<lparr>messages :=
                 map (\<lambda>r. if row_id r = message_id then r\<lparr>row_message := new_message\<rparr> else r)
                   (messages db)\<rparr>)
      else (St_error ''You can only edit your own messages.'', db))"

text \<open>
  The send form of \<^verbatim>\<open>main\<close> (lines 347 to 353), once the button is pressed.
  \<^verbatim>\<open>str.strip()\<close> drops the white space of both ends (\<^verbatim>\<open>str.isspace\<close> on
  the code points below 256).
\<close>

definition isspace :: "char \<Rightarrow> bool" where
  "isspace c \<longleftrightarrow> (of_char c :: nat) \<in> {9, 10, 11, 12, 13, 28, 29, 30, 31, 32, 133, 160}"

definition strip :: "string \<Rightarrow> string" where
  "strip s = rev (dropWhile isspace (rev (dropWhile isspace s)))"

definition submit_send ::
  "string \<Rightarrow> string \<Rightarrow> string \<Rightarrow> string \<Rightarrow> string \<Rightarrow> database \<Rightarrow> notice list \<times> database" where
  "submit_send username msg selected_date_str today_str now db =
     (if strip msg \<noteq> []
      then ([St_success ''Message sent!''],
            if selected_date_str \<noteq> today_str
            then send_message username (strip msg) (Some selected_date_str) now db
            else send_message username (strip msg) None now db)
      else ([], db))"

text \<open>
  \<^verbatim>\<open>id INTEGER PRIMARY KEY\<close>: SQLite keeps the ids of a table distinct. The
  operations below keep it so (proved, not assumed).
\<close>

definition primary_key :: "database \<Rightarrow> bool" where
  "primary_key db \<longleftrightarrow> distinct (map row_id (messages db))"

text \<open>
  What the loop builds from an empty dict over a whole year, in closed form: the
  entry of offset \<open>n\<close> from January 1 (proved below, not assumed).
\<close>

definition year_entries :: "string list \<Rightarrow> nat \<Rightarrow> question_mapping" where
  "year_entries qs yr =
     map (\<lambda>n. (strftime_ymd (add_days (yr, 1, 1) n), qs ! (n mod length qs))) [0..<year_length yr]"

section \<open>The calendar: a year's days, each once\<close>

lemma is_leap_year_py: "is_leap_year yr = py_is_leap yr"
  by (simp add: is_leap_year_def py_is_leap_def)

lemma month_cases:
  assumes "1 \<le> mo" "mo \<le> (12::nat)"
  shows "mo = 1 \<or> mo = 2 \<or> mo = 3 \<or> mo = 4 \<or> mo = 5 \<or> mo = 6 \<or> mo = 7 \<or> mo = 8 \<or> mo = 9
         \<or> mo = 10 \<or> mo = 11 \<or> mo = 12"
  using assms by arith

lemma days_before_next_month:
  assumes "1 \<le> mo" "mo < 12"
  shows "days_before_month yr (mo + 1) = days_before_month yr mo + days_in_month yr mo"
proof -
  have "mo = 1 \<or> mo = 2 \<or> mo = 3 \<or> mo = 4 \<or> mo = 5 \<or> mo = 6 \<or> mo = 7 \<or> mo = 8 \<or> mo = 9
         \<or> mo = 10 \<or> mo = 11"
    using assms by arith
  then show ?thesis
    by (elim disjE) (simp_all add: days_before_month_def days_in_month_def)
qed

lemma days_before_january: "days_before_month yr 1 = 0"
  by (simp add: days_before_month_def)

lemma days_through_december:
  "days_before_month yr 12 + days_in_month yr 12 = year_length yr"
  by (simp add: days_before_month_def days_in_month_def year_length_def)

lemma days_in_month_pos:
  assumes "1 \<le> mo" "mo \<le> 12"
  shows "1 \<le> days_in_month yr mo"
  using month_cases [OF assms]
  by (elim disjE) (simp_all add: days_in_month_def)

lemma next_day_in_year:
  assumes "valid_date (yr, mo, dy)" "tm_yday (yr, mo, dy) < year_length yr"
  shows "fst (next_day (yr, mo, dy)) = yr \<and> valid_date (next_day (yr, mo, dy))
         \<and> tm_yday (next_day (yr, mo, dy)) = tm_yday (yr, mo, dy) + 1"
proof (cases "dy < days_in_month yr mo")
  case True
  then show ?thesis using assms by (simp add: valid_date_def)
next
  case False
  with assms have dy: "dy = days_in_month yr mo" and mo: "1 \<le> mo" "mo \<le> 12"
    by (simp_all add: valid_date_def)
  have "mo < 12"
  proof (rule ccontr)
    assume "\<not> mo < 12"
    with mo have "mo = 12" by simp
    with dy assms(2) days_through_december [of yr] show False by simp
  qed
  then show ?thesis
    using dy mo days_before_next_month [of mo yr] days_in_month_pos [of "mo + 1" yr]
    by (simp add: valid_date_def)
qed

lemma add_days_jan1:
  "n < year_length yr \<Longrightarrow>
     fst (add_days (yr, 1, 1) n) = yr \<and> valid_date (add_days (yr, 1, 1) n)
     \<and> tm_yday (add_days (yr, 1, 1) n) = n + 1"
proof (induction n)
  case 0
  show ?case by (simp add: valid_date_def days_in_month_def days_before_month_def)
next
  case (Suc n)
  then have ih: "fst (add_days (yr, 1, 1) n) = yr" "valid_date (add_days (yr, 1, 1) n)"
    "tm_yday (add_days (yr, 1, 1) n) = n + 1" by simp_all
  obtain mo dy where d: "add_days (yr, 1, 1) n = (yr, mo, dy)"
    using ih(1) by (cases "add_days (yr, 1, 1) n") auto
  from Suc.prems ih d next_day_in_year [of yr mo dy] show ?case by simp
qed

lemma days_in_month_le:
  assumes "1 \<le> mo" "mo \<le> 12"
  shows "days_in_month yr mo \<le> 31"
  using month_cases [OF assms]
  by (elim disjE) (simp_all add: days_in_month_def)

lemma days_through_month:
  assumes "1 \<le> mo" "mo \<le> 12"
  shows "days_before_month yr mo + days_in_month yr mo \<le> year_length yr"
  using month_cases [OF assms]
  by (elim disjE) (simp_all add: days_before_month_def days_in_month_def year_length_def)

lemma tm_yday_le_year:
  assumes "valid_date (yr, mo, dy)"
  shows "1 \<le> tm_yday (yr, mo, dy) \<and> tm_yday (yr, mo, dy) \<le> year_length yr"
proof -
  from assms have mo: "1 \<le> mo" "mo \<le> 12" and dy: "1 \<le> dy" "dy \<le> days_in_month yr mo"
    by (simp_all add: valid_date_def)
  from days_through_month [OF mo, of yr] dy show ?thesis by simp
qed

lemma days_before_later_month:
  "1 \<le> mo \<Longrightarrow> mo + Suc k \<le> 12 \<Longrightarrow>
     days_before_month yr mo + days_in_month yr mo \<le> days_before_month yr (mo + Suc k)"
proof (induction k)
  case 0
  then show ?case using days_before_next_month [of mo yr] by simp
next
  case (Suc k)
  then have a: "days_before_month yr mo + days_in_month yr mo \<le> days_before_month yr (mo + Suc k)"
    by simp
  have "1 \<le> mo + Suc k" "mo + Suc k < 12" using Suc.prems by simp_all
  then have "days_before_month yr (mo + Suc k + 1)
      = days_before_month yr (mo + Suc k) + days_in_month yr (mo + Suc k)"
    by (rule days_before_next_month)
  then have b: "days_before_month yr (mo + Suc k) \<le> days_before_month yr (mo + Suc (Suc k))"
    by simp
  from a b show ?case by (rule order_trans)
qed

lemma digit_char_inj:
  assumes "a < 10" "b < 10" "digit_char a = digit_char b"
  shows "a = b"
proof -
  from assms(3) have "of_char (char_of (48 + a)) = (of_char (char_of (48 + b)) :: nat)"
    by (simp add: digit_char_def)
  then have "(48 + a) mod 256 = (48 + b) mod 256"
    by (simp only: of_char_of)
  with assms(1,2) show ?thesis by simp
qed

lemma zero_pad2_inj:
  assumes "a < 100" "b < 100" "zero_pad2 a = zero_pad2 b"
  shows "a = b"
proof -
  from assms(3) have "digit_char (a div 10 mod 10) = digit_char (b div 10 mod 10)"
    "digit_char (a mod 10) = digit_char (b mod 10)"
    by (simp_all add: zero_pad2_def)
  then have "a div 10 mod 10 = b div 10 mod 10" "a mod 10 = b mod 10"
    by (simp_all add: digit_char_inj)
  moreover from assms(1,2) have "a div 10 mod 10 = a div 10" "b div 10 mod 10 = b div 10"
    by simp_all
  ultimately have "a div 10 = b div 10" "a mod 10 = b mod 10" by simp_all
  then have "10 * (a div 10) + a mod 10 = 10 * (b div 10) + b mod 10" by simp
  then show ?thesis by (simp only: mult_div_mod_eq)
qed

lemma tm_yday_month_order:
  assumes "valid_date (yr, mo, dy)" "valid_date (yr, mo', dy')" "mo < mo'"
  shows "tm_yday (yr, mo, dy) < tm_yday (yr, mo', dy')"
proof -
  obtain k where k: "mo' = mo + Suc k"
    using assms(3) less_iff_Suc_add by auto
  from assms(1,2) have b: "1 \<le> mo" "mo' \<le> 12" "dy \<le> days_in_month yr mo" "1 \<le> dy'"
    by (simp_all add: valid_date_def)
  from b(1,2) k have "days_before_month yr mo + days_in_month yr mo \<le> days_before_month yr mo'"
    using days_before_later_month [of mo k yr] by simp
  with b(3,4) show ?thesis by simp
qed

lemma tm_yday_inj:
  assumes "valid_date (yr, mo, dy)" "valid_date (yr, mo', dy')"
    and "tm_yday (yr, mo, dy) = tm_yday (yr, mo', dy')"
  shows "mo = mo' \<and> dy = dy'"
proof -
  have "\<not> mo < mo'" using tm_yday_month_order [OF assms(1,2)] assms(3) by auto
  moreover have "\<not> mo' < mo" using tm_yday_month_order [OF assms(2,1)] assms(3) by auto
  ultimately have "mo = mo'" by simp
  with assms(3) show ?thesis by simp
qed

lemma add_days_reaches:
  assumes "valid_date (yr, mo, dy)"
  shows "add_days (yr, 1, 1) (tm_yday (yr, mo, dy) - 1) = (yr, mo, dy)"
proof -
  define n where "n = tm_yday (yr, mo, dy) - 1"
  from tm_yday_le_year [OF assms] have n: "n < year_length yr" "n + 1 = tm_yday (yr, mo, dy)"
    unfolding n_def by arith+
  obtain y' mo' dy' where d: "add_days (yr, 1, 1) n = (y', mo', dy')"
    by (cases "add_days (yr, 1, 1) n") auto
  from add_days_jan1 [OF n(1)] have "fst (add_days (yr, 1, 1) n) = yr"
    "valid_date (add_days (yr, 1, 1) n)" "tm_yday (add_days (yr, 1, 1) n) = n + 1"
    by blast+
  with d n(2) have e: "y' = yr" "valid_date (y', mo', dy')"
    "tm_yday (y', mo', dy') = tm_yday (yr, mo, dy)"
    by simp_all
  from e(2,3) have "valid_date (yr, mo', dy')" "tm_yday (yr, mo, dy) = tm_yday (yr, mo', dy')"
    unfolding e(1) by simp_all
  with assms have "mo = mo' \<and> dy = dy'" by (rule tm_yday_inj)
  with d e(1) show ?thesis unfolding n_def by simp
qed

lemma strftime_ymd_inj:
  assumes "valid_date (yr, mo, dy)" "valid_date (yr, mo', dy')"
    and "strftime_ymd (yr, mo, dy) = strftime_ymd (yr, mo', dy')"
  shows "mo = mo' \<and> dy = dy'"
proof -
  from assms(3) have eq: "zero_pad2 mo = zero_pad2 mo'" "zero_pad2 dy = zero_pad2 dy'"
    by (simp_all add: zero_pad2_def)
  from assms(1,2) have mo: "1 \<le> mo" "mo \<le> 12" "1 \<le> mo'" "mo' \<le> 12"
    and dy: "dy \<le> days_in_month yr mo" "dy' \<le> days_in_month yr mo'"
    by (simp_all add: valid_date_def)
  from dy days_in_month_le [OF mo(1,2), of yr] days_in_month_le [OF mo(3,4), of yr]
  have d100: "dy < 100" "dy' < 100" by simp_all
  from mo have m100: "mo < 100" "mo' < 100" by simp_all
  from m100 eq(1) have "mo = mo'" by (rule zero_pad2_inj)
  moreover from d100 eq(2) have "dy = dy'" by (rule zero_pad2_inj)
  ultimately show ?thesis by simp
qed

lemma update_fresh:
  "k \<notin> fst ` set al \<Longrightarrow> AList.update k v al = al @ [(k, v)]"
  by (induction al) auto

lemma add_days_jan1_date:
  assumes "n < year_length yr"
  obtains mo dy where "add_days (yr, 1, 1) n = (yr, mo, dy)" "valid_date (yr, mo, dy)"
    "tm_yday (yr, mo, dy) = n + 1"
proof -
  from add_days_jan1 [OF assms] have a: "fst (add_days (yr, 1, 1) n) = yr"
    "valid_date (add_days (yr, 1, 1) n)" "tm_yday (add_days (yr, 1, 1) n) = n + 1"
    by blast+
  obtain y1 mo dy where d: "add_days (yr, 1, 1) n = (y1, mo, dy)"
    by (cases "add_days (yr, 1, 1) n") auto
  from a(1) d have "y1 = yr" by simp
  with a(2,3) d that show thesis by simp
qed

lemma date_str_inj:
  assumes "n < year_length yr" "n' < year_length yr"
    and "strftime_ymd (add_days (yr, 1, 1) n) = strftime_ymd (add_days (yr, 1, 1) n')"
  shows "n = n'"
proof -
  from assms(1) obtain mo dy where d: "add_days (yr, 1, 1) n = (yr, mo, dy)"
    "valid_date (yr, mo, dy)" "tm_yday (yr, mo, dy) = n + 1"
    by (rule add_days_jan1_date)
  from assms(2) obtain mo' dy' where d': "add_days (yr, 1, 1) n' = (yr, mo', dy')"
    "valid_date (yr, mo', dy')" "tm_yday (yr, mo', dy') = n' + 1"
    by (rule add_days_jan1_date)
  from assms(3) have "strftime_ymd (yr, mo, dy) = strftime_ymd (yr, mo', dy')"
    unfolding d(1) d'(1) .
  with d(2) d'(2) have "mo = mo' \<and> dy = dy'" by (rule strftime_ymd_inj)
  with d(3) d'(3) show ?thesis by simp
qed

lemma assign_days_appends:
  assumes "all_questions \<noteq> []"
  shows "\<forall>n \<in> set ns. n < year_length yr \<Longrightarrow> distinct ns \<Longrightarrow>
         \<forall>n \<in> set ns. strftime_ymd (add_days (yr, 1, 1) n) \<notin> fst ` set mapping \<Longrightarrow>
         assign_days all_questions (yr, tmo, tdy) ns mapping =
           Inr (mapping @ map (\<lambda>n. (strftime_ymd (add_days (yr, 1, 1) n),
                                   all_questions ! (n mod length all_questions))) ns)"
proof (induction ns arbitrary: mapping)
  case Nil
  show ?case by simp
next
  case (Cons n ns)
  let ?k = "strftime_ymd (add_days (yr, 1, 1) n)"
  let ?v = "all_questions ! (n mod length all_questions)"
  from Cons.prems(1) have n: "n < year_length yr" by simp
  from add_days_jan1 [OF n] have yday: "tm_yday (add_days (yr, 1, 1) n) - 1 = n" by simp
  from Cons.prems(3) have fresh: "?k \<notin> fst ` set mapping" by simp
  have rest: "\<forall>n' \<in> set ns. strftime_ymd (add_days (yr, 1, 1) n') \<notin> fst ` set (mapping @ [(?k, ?v)])"
  proof
    fix n' assume n': "n' \<in> set ns"
    with Cons.prems(1,2) have "n' < year_length yr" "n \<noteq> n'" by auto
    with n date_str_inj [of n yr n'] have "strftime_ymd (add_days (yr, 1, 1) n') \<noteq> ?k" by auto
    with Cons.prems(3) n' show "strftime_ymd (add_days (yr, 1, 1) n') \<notin> fst ` set (mapping @ [(?k, ?v)])"
      by simp
  qed
  from Cons.prems(1,2) have "\<forall>n \<in> set ns. n < year_length yr" "distinct ns" by simp_all
  from Cons.IH [OF this rest] assms yday fresh show ?case
    by (simp add: update_fresh)
qed

lemma assign_days_year:
  assumes "all_questions \<noteq> []"
  shows "assign_days all_questions (yr, tmo, tdy) [0..<year_length yr] [] =
           Inr (map (\<lambda>n. (strftime_ymd (add_days (yr, 1, 1) n),
                          all_questions ! (n mod length all_questions))) [0..<year_length yr])"
  using assign_days_appends [OF assms, of "[0..<year_length yr]" yr "[]" tmo tdy] by simp

lemma assign_days_empty_pool:
  "ns \<noteq> [] \<Longrightarrow> assign_days [] today ns mapping = Inl ZeroDivisionError"
  by (cases ns) simp_all

lemma digit_char_numerals:
  "digit_char 0 = CHR ''0''" "digit_char 1 = CHR ''1''" "digit_char 2 = CHR ''2''"
  "digit_char 3 = CHR ''3''" "digit_char 4 = CHR ''4''" "digit_char 5 = CHR ''5''"
  "digit_char 6 = CHR ''6''" "digit_char 7 = CHR ''7''" "digit_char 8 = CHR ''8''"
  "digit_char 9 = CHR ''9''" "digit_char (Suc 0) = CHR ''1''"
  by (simp_all add: digit_char_def char_of_def bit_Suc_0_iff)

section \<open>Generating the mapping\<close>

lemma year_length_is_leap_year:
  "year_length yr = (if is_leap_year yr then 366 else 365)"
  by (simp add: year_length_def is_leap_year_py)

lemma load_and_assign_questions_entries:
  assumes "read_questions xl = Some pool" "shuffle pool \<noteq> []" "data_dir fs"
  shows "load_and_assign_questions xl shuffle (yr, tmo, tdy) fs =
           (Inr (year_entries (shuffle pool) yr), [],
            fs\<lparr>mapping_file := Some (Parsed (year_entries (shuffle pool) yr))\<rparr>)"
proof -
  have "(if is_leap_year yr then 366 else 365) = year_length yr"
    by (simp add: year_length_is_leap_year)
  then have "assign_days (shuffle pool) (yr, tmo, tdy) [0..<(if is_leap_year yr then 366 else 365)] []
      = Inr (year_entries (shuffle pool) yr)"
    using assign_days_year [OF assms(2), of yr tmo tdy] by (simp only: year_entries_def)
  with assms(1,3) show ?thesis
    by (simp add: load_and_assign_questions_def Let_def)
qed

lemma length_year_entries: "length (year_entries qs yr) = year_length yr"
  by (simp add: year_entries_def)

lemma distinct_year_entries: "distinct (map fst (year_entries qs yr))"
proof -
  have "inj_on (\<lambda>n. strftime_ymd (add_days (yr, 1, 1) n)) (set [0..<year_length yr])"
    by (rule inj_onI) (simp add: date_str_inj)
  then have "distinct (map (\<lambda>n. strftime_ymd (add_days (yr, 1, 1) n)) [0..<year_length yr])"
    by (simp add: distinct_map)
  then show ?thesis by (simp add: year_entries_def comp_def)
qed

lemma nth_year_entries:
  assumes "n < year_length yr"
  shows "year_entries qs yr ! n = (strftime_ymd (add_days (yr, 1, 1) n), qs ! (n mod length qs))"
  using assms by (simp add: year_entries_def)

lemma year_entries_of_date:
  assumes "valid_date (yr, mo, dy)"
  shows "map_of (year_entries qs yr) (strftime_ymd (yr, mo, dy)) =
           Some (qs ! ((tm_yday (yr, mo, dy) - 1) mod length qs))"
proof -
  define n where "n = tm_yday (yr, mo, dy) - 1"
  from tm_yday_le_year [OF assms] have n: "n < year_length yr" unfolding n_def by arith
  from add_days_reaches [OF assms] have "add_days (yr, 1, 1) n = (yr, mo, dy)"
    unfolding n_def .
  with nth_year_entries [OF n, of qs]
  have "year_entries qs yr ! n = (strftime_ymd (yr, mo, dy), qs ! (n mod length qs))" by simp
  moreover from n have "n < length (year_entries qs yr)" by (simp add: length_year_entries)
  ultimately have "(strftime_ymd (yr, mo, dy), qs ! (n mod length qs)) \<in> set (year_entries qs yr)"
    by (metis nth_mem)
  then show ?thesis
    using distinct_year_entries [of qs yr] unfolding n_def by simp
qed

text \<open>
  Claim C2. For a workbook that reads to a non-empty pool, \<^verbatim>\<open>load_and_assign_questions\<close>
  returns a mapping and writes it to the mapping file. The mapping has 366 entries in a
  leap year by \<^verbatim>\<open>is_leap_year\<close> and 365 otherwise, with distinct keys; its entry
  number \<open>n\<close> (from 0) is the calendar date of the year whose day-of-year index is
  \<open>n + 1\<close>, and every calendar date of the year with day-of-year index \<open>k\<close> maps to
  the shuffled pool's element \<open>(k - 1) mod len(pool)\<close>, so the pool is cycled through.
  Every question assigned comes from the pool.
\<close>

theorem mapping_covers_year:
  assumes "read_questions xl = Some pool" and "pool \<noteq> []"
    and "mset (shuffle pool) = mset pool" and "data_dir fs"
  shows "\<exists>m. load_and_assign_questions xl shuffle (yr, tmo, tdy) fs =
               (Inr m, [], fs\<lparr>mapping_file := Some (Parsed m)\<rparr>)
           \<and> length m = (if is_leap_year yr then 366 else 365)
           \<and> distinct (map fst m)
           \<and> (\<forall>n < length m. \<exists>mo dy. valid_date (yr, mo, dy) \<and> tm_yday (yr, mo, dy) = n + 1
                  \<and> m ! n = (strftime_ymd (yr, mo, dy), shuffle pool ! (n mod length pool)))
           \<and> (\<forall>mo dy. valid_date (yr, mo, dy) \<longrightarrow>
                  map_of m (strftime_ymd (yr, mo, dy)) =
                    Some (shuffle pool ! ((tm_yday (yr, mo, dy) - 1) mod length pool)))
           \<and> snd ` set m \<subseteq> set pool"
proof -
  let ?qs = "shuffle pool"
  let ?m = "year_entries ?qs yr"
  from assms(3) have len: "length ?qs = length pool" by (rule mset_eq_length)
  from assms(3) have elems: "set ?qs = set pool" by (rule mset_eq_setD)
  from len assms(2) have ne: "?qs \<noteq> []" by auto
  have run: "load_and_assign_questions xl shuffle (yr, tmo, tdy) fs =
               (Inr ?m, [], fs\<lparr>mapping_file := Some (Parsed ?m)\<rparr>)"
    using assms(1) ne assms(4) by (rule load_and_assign_questions_entries)
  have count: "length ?m = (if is_leap_year yr then 366 else 365)"
    by (simp only: length_year_entries year_length_is_leap_year)
  have keys: "distinct (map fst ?m)" by (rule distinct_year_entries)
  have nth: "\<forall>n < length ?m. \<exists>mo dy. valid_date (yr, mo, dy) \<and> tm_yday (yr, mo, dy) = n + 1
                  \<and> ?m ! n = (strftime_ymd (yr, mo, dy), ?qs ! (n mod length pool))"
  proof (intro allI impI)
    fix n assume "n < length ?m"
    then have n: "n < year_length yr" by (simp add: length_year_entries)
    then obtain mo dy where d: "add_days (yr, 1, 1) n = (yr, mo, dy)" "valid_date (yr, mo, dy)"
      "tm_yday (yr, mo, dy) = n + 1"
      by (rule add_days_jan1_date)
    from nth_year_entries [OF n, of ?qs] d(1) len
    have "?m ! n = (strftime_ymd (yr, mo, dy), ?qs ! (n mod length pool))" by simp
    with d(2,3) show "\<exists>mo dy. valid_date (yr, mo, dy) \<and> tm_yday (yr, mo, dy) = n + 1
                  \<and> ?m ! n = (strftime_ymd (yr, mo, dy), ?qs ! (n mod length pool))"
      by blast
  qed
  have lookup: "\<forall>mo dy. valid_date (yr, mo, dy) \<longrightarrow>
                  map_of ?m (strftime_ymd (yr, mo, dy)) =
                    Some (?qs ! ((tm_yday (yr, mo, dy) - 1) mod length pool))"
    using year_entries_of_date [of yr _ _ ?qs] len by simp
  have drawn: "snd ` set ?m \<subseteq> set pool"
  proof
    fix q assume "q \<in> snd ` set ?m"
    then obtain n where "q = ?qs ! (n mod length ?qs)"
      by (auto simp: year_entries_def)
    moreover from ne have "n mod length ?qs < length ?qs" by simp
    ultimately have "q \<in> set ?qs" by (metis nth_mem)
    with elems show "q \<in> set pool" by simp
  qed
  from run count keys nth lookup drawn show ?thesis by blast
qed

theorem mapping_covers_year_witness:
  "\<exists>m. load_and_assign_questions (Workbook [[[Some ''A'', None, Some ''B'']]]) rev (2024, 11, 4)
          \<lparr>data_dir = True, mapping_file = None\<rparr> =
            (Inr m, [], \<lparr>data_dir = True, mapping_file = Some (Parsed m)\<rparr>)
        \<and> length m = 366 \<and> map_of m ''2024-03-01'' = Some ''B''"
proof -
  have a: "read_questions (Workbook [[[Some ''A'', None, Some ''B'']]]) = Some [''A'', ''B'']"
    by (simp add: List.map_filter_simps)
  have b: "[''A'', ''B''] \<noteq> []" by simp
  have c: "mset (rev [''A'', ''B'']) = mset [''A'', ''B'']" by simp
  have d: "data_dir \<lparr>data_dir = True, mapping_file = None\<rparr>" by simp
  have v: "valid_date (2024, 3, 1)" by (simp add: valid_date_def days_in_month_def)
  have s: "strftime_ymd (2024, 3, 1) = ''2024-03-01''"
    by (simp add: zero_pad4_def zero_pad2_def digit_char_numerals)
  have y: "(tm_yday (2024, 3, 1) - 1) mod length [''A'', ''B''] = 0"
  proof -
    have "tm_yday (2024, 3, 1) = 61" by (simp add: days_before_month_def py_is_leap_def)
    moreover have "length [''A'', ''B''] = 2" by simp
    moreover have "(61 - 1) mod 2 = (0::nat)" by simp
    ultimately show ?thesis by (simp only:)
  qed
  have l: "is_leap_year 2024" by (simp add: is_leap_year_def)
  note mapping_covers_year [where shuffle = rev and yr = 2024 and tmo = 11 and tdy = 4, OF a b c d]
  then obtain m where m:
    "load_and_assign_questions (Workbook [[[Some ''A'', None, Some ''B'']]]) rev (2024, 11, 4)
       \<lparr>data_dir = True, mapping_file = None\<rparr> =
         (Inr m, [], \<lparr>data_dir = True, mapping_file = None\<rparr>\<lparr>mapping_file := Some (Parsed m)\<rparr>)"
    "length m = (if is_leap_year 2024 then 366 else 365)"
    "\<forall>mo dy. valid_date (2024, mo, dy) \<longrightarrow>
        map_of m (strftime_ymd (2024, mo, dy)) =
          Some (rev [''A'', ''B''] ! ((tm_yday (2024, mo, dy) - 1) mod length [''A'', ''B'']))"
    by blast
  from m(3) v have "map_of m (strftime_ymd (2024, 3, 1)) =
      Some (rev [''A'', ''B''] ! ((tm_yday (2024, 3, 1) - 1) mod length [''A'', ''B'']))"
    by blast
  then have "map_of m ''2024-03-01'' = Some ''B''" unfolding s y by simp
  with m(1,2) l show ?thesis by auto
qed

section \<open>The message table: ownership, dates, listing\<close>

lemma find_by_id:
  "distinct (map row_id rs) \<Longrightarrow> r \<in> set rs \<Longrightarrow> find (\<lambda>x. row_id x = row_id r) rs = Some r"
proof (induction rs)
  case Nil
  then show ?case by simp
next
  case (Cons a rs)
  show ?case
  proof (cases "row_id a = row_id r")
    case True
    with Cons.prems have "a = r" by (auto simp: image_iff)
    then show ?thesis by simp
  next
    case False
    with Cons show ?thesis by auto
  qed
qed

lemma fetch_sender_owner:
  assumes "primary_key db" "r \<in> set (messages db)"
  shows "fetch_sender (row_id r) db = Some (row_sender r)"
  using assms by (simp add: fetch_sender_def primary_key_def find_by_id)

lemma find_Some_member: "find P xs = Some x \<Longrightarrow> x \<in> set xs \<and> P x"
  by (induction xs) (auto split: if_splits)

lemma fetch_sender_cases:
  "fetch_sender k db = None \<or>
   (\<exists>r \<in> set (messages db). row_id r = k \<and> fetch_sender k db = Some (row_sender r))"
proof (cases "find (\<lambda>r. row_id r = k) (messages db)")
  case None
  then show ?thesis by (simp add: fetch_sender_def)
next
  case (Some r)
  from find_Some_member [OF Some] Some show ?thesis
    by (auto simp: fetch_sender_def)
qed

lemma fetch_sender_missing:
  "k \<notin> row_id ` set (messages db) \<Longrightarrow> fetch_sender k db = None"
  by (auto simp: fetch_sender_def find_None_iff)

text \<open>
  Claim C3. For a stored message \<open>r\<close> (id \<open>K\<close>, sender \<open>S\<close>): \<^verbatim>\<open>edit_message\<close>
  by a requester other than \<open>S\<close> shows the ownership error and leaves the database as it
  was; by \<open>S\<close> it succeeds, and afterwards the table has the same rows in the same
  places, the row with id \<open>K\<close> holding the new body with its id, sender and timestamp
  as before, every other row unchanged, and the id counter unchanged.
\<close>

theorem edit_message_owner_only:
  assumes "primary_key db" and "r \<in> set (messages db)"
  shows "(requester \<noteq> row_sender r \<longrightarrow>
            edit_message (row_id r) requester new_body db =
              (St_error ''You can only edit your own messages.'', db))
       \<and> (\<exists>db'. edit_message (row_id r) (row_sender r) new_body db =
                    (St_success ''Message updated successfully!'', db')
             \<and> seq db' = seq db
             \<and> length (messages db') = length (messages db)
             \<and> (\<forall>i < length (messages db).
                   if row_id (messages db ! i) = row_id r
                   then row_message (messages db' ! i) = new_body
                      \<and> row_id (messages db' ! i) = row_id (messages db ! i)
                      \<and> row_sender (messages db' ! i) = row_sender (messages db ! i)
                      \<and> row_timestamp (messages db' ! i) = row_timestamp (messages db ! i)
                   else messages db' ! i = messages db ! i))"
proof -
  note own = fetch_sender_owner [OF assms]
  have refuse: "requester \<noteq> row_sender r \<longrightarrow>
      edit_message (row_id r) requester new_body db =
        (St_error ''You can only edit your own messages.'', db)"
    using own by (auto simp: edit_message_def)
  let ?db' = "db\<lparr>messages :=
                 map (\<lambda>x. if row_id x = row_id r then x\<lparr>row_message := new_body\<rparr> else x)
                   (messages db)\<rparr>"
  have ok: "edit_message (row_id r) (row_sender r) new_body db =
      (St_success ''Message updated successfully!'', ?db')"
    using own by (simp add: edit_message_def)
  have "seq ?db' = seq db" "length (messages ?db') = length (messages db)" by simp_all
  moreover have "\<forall>i < length (messages db).
                   if row_id (messages db ! i) = row_id r
                   then row_message (messages ?db' ! i) = new_body
                      \<and> row_id (messages ?db' ! i) = row_id (messages db ! i)
                      \<and> row_sender (messages ?db' ! i) = row_sender (messages db ! i)
                      \<and> row_timestamp (messages ?db' ! i) = row_timestamp (messages db ! i)
                   else messages ?db' ! i = messages db ! i"
    by simp
  ultimately show ?thesis using refuse ok by blast
qed

text \<open>
  Claim C4, as the code has it. \<^verbatim>\<open>delete_message\<close> and \<^verbatim>\<open>edit_message\<close> do
  not tell a missing id from a message of somebody else: whenever no row with the given
  id has the requester as its sender (no such row at all, or a row of another sender),
  they show the same ownership error and change nothing.
\<close>

theorem failure_is_one_notice:
  assumes "\<forall>r \<in> set (messages db). row_id r = k \<longrightarrow> row_sender r \<noteq> requester"
  shows "delete_message k requester db = (St_error ''You can only delete your own messages.'', db)
       \<and> edit_message k requester new_body db =
           (St_error ''You can only edit your own messages.'', db)"
proof -
  from fetch_sender_cases [of k db] assms
  have "\<not> (case fetch_sender k db of None \<Rightarrow> False | Some s \<Rightarrow> s = requester)"
    by (auto split: option.splits)
  then show ?thesis by (simp add: delete_message_def edit_message_def Let_def)
qed

theorem edit_message_owner_only_witness:
  "edit_message 1 ''User 2'' ''x''
     \<lparr>messages = [\<lparr>row_id = 1, row_sender = ''User 1'', row_message = ''hello'',
                    row_timestamp = ''2025-03-01 00:00:00''\<rparr>,
                  \<lparr>row_id = 2, row_sender = ''User 2'', row_message = ''hi'',
                    row_timestamp = ''2025-03-01 00:00:00''\<rparr>], seq = 2\<rparr>
   = (St_error ''You can only edit your own messages.'',
      \<lparr>messages = [\<lparr>row_id = 1, row_sender = ''User 1'', row_message = ''hello'',
                    row_timestamp = ''2025-03-01 00:00:00''\<rparr>,
                  \<lparr>row_id = 2, row_sender = ''User 2'', row_message = ''hi'',
                    row_timestamp = ''2025-03-01 00:00:00''\<rparr>], seq = 2\<rparr>)
   \<and> edit_message 1 ''User 1'' ''x''
     \<lparr>messages = [\<lparr>row_id = 1, row_sender = ''User 1'', row_message = ''hello'',
                    row_timestamp = ''2025-03-01 00:00:00''\<rparr>,
                  \<lparr>row_id = 2, row_sender = ''User 2'', row_message = ''hi'',
                    row_timestamp = ''2025-03-01 00:00:00''\<rparr>], seq = 2\<rparr>
   = (St_success ''Message updated successfully!'',
      \<lparr>messages = [\<lparr>row_id = 1, row_sender = ''User 1'', row_message = ''x'',
                    row_timestamp = ''2025-03-01 00:00:00''\<rparr>,
                  \<lparr>row_id = 2, row_sender = ''User 2'', row_message = ''hi'',
                    row_timestamp = ''2025-03-01 00:00:00''\<rparr>], seq = 2\<rparr>)"
proof -
  let ?r1 = "\<lparr>row_id = 1, row_sender = ''User 1'', row_message = ''hello'',
              row_timestamp = ''2025-03-01 00:00:00''\<rparr>"
  let ?r2 = "\<lparr>row_id = 2, row_sender = ''User 2'', row_message = ''hi'',
              row_timestamp = ''2025-03-01 00:00:00''\<rparr>"
  let ?db = "\<lparr>messages = [?r1, ?r2], seq = 2\<rparr>"
  have pk: "primary_key ?db" by (simp add: primary_key_def)
  have mem: "?r1 \<in> set (messages ?db)" by simp
  from edit_message_owner_only [OF pk mem, of "''User 2''" "''x''"]
  have "edit_message 1 ''User 2'' ''x'' ?db = (St_error ''You can only edit your own messages.'', ?db)"
    by simp
  moreover have "edit_message 1 ''User 1'' ''x'' ?db =
      (St_success ''Message updated successfully!'',
       \<lparr>messages = [?r1\<lparr>row_message := ''x''\<rparr>, ?r2], seq = 2\<rparr>)"
    by (simp add: edit_message_def fetch_sender_def)
  ultimately show ?thesis by simp
qed

text \<open>
  Claim C4 as stated fails: on an id that no row has (also the id of a message just
  deleted) the outcome is the ownership error, the same as for a message of another
  sender, and no "not found" outcome exists.
\<close>

theorem missing_id_reported_as_not_owner:
  "delete_message 7 ''User 1'' \<lparr>messages = [], seq = 0\<rparr> =
     (St_error ''You can only delete your own messages.'', \<lparr>messages = [], seq = 0\<rparr>)
   \<and> edit_message 7 ''User 1'' ''x'' \<lparr>messages = [], seq = 0\<rparr> =
     (St_error ''You can only edit your own messages.'', \<lparr>messages = [], seq = 0\<rparr>)
   \<and> fst (delete_message 1 ''User 2''
           \<lparr>messages = [\<lparr>row_id = 1, row_sender = ''User 1'', row_message = ''hello'',
                          row_timestamp = ''2025-03-01 00:00:00''\<rparr>], seq = 1\<rparr>)
       = St_error ''You can only delete your own messages.''
   \<and> delete_message 1 ''User 1''
           \<lparr>messages = [\<lparr>row_id = 1, row_sender = ''User 1'', row_message = ''hello'',
                          row_timestamp = ''2025-03-01 00:00:00''\<rparr>], seq = 1\<rparr>
       = (St_success ''Message deleted successfully!'', \<lparr>messages = [], seq = 1\<rparr>)
   \<and> fst (delete_message 1 ''User 1'' \<lparr>messages = [], seq = 1\<rparr>)
       = St_error ''You can only delete your own messages.''"
  by (simp add: delete_message_def edit_message_def fetch_sender_def)

theorem failure_is_one_notice_witness:
  "delete_message 7 ''User 1'' \<lparr>messages = [], seq = 3\<rparr> =
     (St_error ''You can only delete your own messages.'', \<lparr>messages = [], seq = 3\<rparr>)
   \<and> edit_message 1 ''User 2'' ''x''
        \<lparr>messages = [\<lparr>row_id = 1, row_sender = ''User 1'', row_message = ''hello'',
                       row_timestamp = ''2025-03-01 00:00:00''\<rparr>], seq = 1\<rparr> =
     (St_error ''You can only edit your own messages.'',
      \<lparr>messages = [\<lparr>row_id = 1, row_sender = ''User 1'', row_message = ''hello'',
                     row_timestamp = ''2025-03-01 00:00:00''\<rparr>], seq = 1\<rparr>)"
proof -
  have a: "\<forall>r \<in> set (messages \<lparr>messages = [], seq = 3\<rparr>). row_id r = 7 \<longrightarrow> row_sender r \<noteq> ''User 1''"
    by simp
  have b: "\<forall>r \<in> set (messages \<lparr>messages = [\<lparr>row_id = 1, row_sender = ''User 1'',
              row_message = ''hello'', row_timestamp = ''2025-03-01 00:00:00''\<rparr>], seq = 1\<rparr>).
            row_id r = 1 \<longrightarrow> row_sender r \<noteq> ''User 2''"
    by simp
  from failure_is_one_notice [OF a] failure_is_one_notice [OF b, of "''x''"]
  show ?thesis by blast
qed

lemma of_char_digit_char: "k < 10 \<Longrightarrow> of_char (digit_char k) = 48 + k"
  by (simp add: digit_char_def)

lemma is_digit_digit_char: "k < 10 \<Longrightarrow> is_digit (digit_char k)"
  by (simp add: is_digit_def of_char_digit_char)

lemma digits_val_zero_pad2:
  assumes "n < 100"
  shows "digits_val (zero_pad2 n) = n"
proof -
  from assms have "n div 10 mod 10 = n div 10" by simp
  then have "digits_val (zero_pad2 n) = 10 * (n div 10) + n mod 10"
    by (simp add: digits_val_def zero_pad2_def of_char_digit_char)
  then show ?thesis by simp
qed

lemma digits_val_zero_pad4:
  assumes "n < 10000"
  shows "digits_val (zero_pad4 n) = n"
proof -
  define a where "a = n div 10"
  define b where "b = a div 10"
  define c where "c = b div 10"
  have b: "n div 100 = b" unfolding a_def b_def by (simp add: div_mult2_eq)
  have c: "n div 1000 = c" unfolding a_def b_def c_def by (simp add: div_mult2_eq)
  from assms have "c < 10" unfolding c [symmetric] by simp
  then have c10: "c mod 10 = c" by simp
  have "digits_val (zero_pad4 n) =
      10 * (10 * (10 * (n div 1000 mod 10) + n div 100 mod 10) + n div 10 mod 10) + n mod 10"
    by (simp add: digits_val_def zero_pad4_def of_char_digit_char)
  also have "\<dots> = 10 * (10 * (10 * c + b mod 10) + a mod 10) + n mod 10"
    unfolding b c c10 a_def [symmetric] ..
  also have "10 * c + b mod 10 = b" unfolding c_def by simp
  also have "10 * b + a mod 10 = a" unfolding b_def by simp
  also have "10 * a + n mod 10 = n" unfolding a_def by simp
  finally show ?thesis .
qed

lemma is_iso_date_strftime:
  assumes "valid_date (yr, mo, dy)" "yr \<le> 9999"
  shows "is_iso_date (strftime_ymd (yr, mo, dy))"
proof -
  from assms(1) have mo: "1 \<le> mo" "mo \<le> 12" and dy: "dy \<le> days_in_month yr mo"
    by (simp_all add: valid_date_def)
  from dy days_in_month_le [OF mo, of yr] have d100: "dy < 100" by simp
  from mo have m100: "mo < 100" by simp
  from assms(2) have y: "yr < 10000" by simp
  have shape: "strftime_ymd (yr, mo, dy) =
      [digit_char (yr div 1000 mod 10), digit_char (yr div 100 mod 10),
       digit_char (yr div 10 mod 10), digit_char (yr mod 10), CHR ''-'',
       digit_char (mo div 10 mod 10), digit_char (mo mod 10), CHR ''-'',
       digit_char (dy div 10 mod 10), digit_char (dy mod 10)]"
    by (simp add: zero_pad4_def zero_pad2_def)
  have parts: "take 4 (strftime_ymd (yr, mo, dy)) = zero_pad4 yr"
    "take 2 (drop 5 (strftime_ymd (yr, mo, dy))) = zero_pad2 mo"
    "drop 8 (strftime_ymd (yr, mo, dy)) = zero_pad2 dy"
    unfolding shape by (simp_all add: zero_pad4_def zero_pad2_def)
  have seps: "length (strftime_ymd (yr, mo, dy)) = 10"
    "strftime_ymd (yr, mo, dy) ! 4 = CHR ''-''" "strftime_ymd (yr, mo, dy) ! 7 = CHR ''-''"
    unfolding shape by simp_all
  have digits: "list_all is_digit (zero_pad4 yr)" "list_all is_digit (zero_pad2 mo)"
    "list_all is_digit (zero_pad2 dy)"
    by (simp_all add: zero_pad4_def zero_pad2_def is_digit_digit_char)
  show ?thesis
    unfolding is_iso_date_def parts
    using seps digits assms(1) digits_val_zero_pad4 [OF y] digits_val_zero_pad2 [OF m100]
      digits_val_zero_pad2 [OF d100]
    by simp
qed

lemma is_clock_time_midnight: "is_clock_time '' 00:00:00''"
  by (simp add: is_clock_time_def is_digit_def digits_val_def)

lemma sql_DATE_midnight:
  assumes "is_iso_date d"
  shows "sql_DATE (d @ '' 00:00:00'') = Some d"
proof -
  from assms have "length d = 10" by (simp add: is_iso_date_def)
  then have "take 10 (d @ '' 00:00:00'') = d" "drop 10 (d @ '' 00:00:00'') = '' 00:00:00''"
    by simp_all
  with assms is_clock_time_midnight show ?thesis by (simp add: sql_DATE_def)
qed

lemma iso_date_nonempty: "is_iso_date d \<Longrightarrow> d \<noteq> []"
  by (auto simp: is_iso_date_def)

lemma send_message_shape:
  "send_message sender body chat_date_str now db =
     \<lparr>messages = messages db @
        [\<lparr>row_id = Suc (max (seq db) (largest_rowid (messages db))), row_sender = sender,
          row_message = body,
          row_timestamp = (case chat_date_str of None \<Rightarrow> now
                           | Some d \<Rightarrow> if d \<noteq> [] then d @ '' 00:00:00'' else now)\<rparr>],
      seq = Suc (max (seq db) (largest_rowid (messages db)))\<rparr>"
  by (simp add: send_message_def insert_row_def Let_def split: option.splits)

text \<open>
  Claim C7. \<^verbatim>\<open>send_message\<close> with the text of a calendar date \<open>D\<close> stores the
  timestamp \<open>D 00:00:00\<close>, whose \<^verbatim>\<open>DATE()\<close> is \<open>D\<close>, whatever the clock
  \<open>now\<close> says; with no date the timestamp is \<open>now\<close>, the insertion instant.
\<close>

theorem explicit_date_at_midnight:
  assumes "valid_date (yr, mo, dy)" and "yr \<le> 9999"
  shows "row_timestamp (last (messages (send_message sender body
                                           (Some (strftime_ymd (yr, mo, dy))) now db)))
           = strftime_ymd (yr, mo, dy) @ '' 00:00:00''
       \<and> sql_DATE (row_timestamp (last (messages (send_message sender body
                                           (Some (strftime_ymd (yr, mo, dy))) now db))))
           = Some (strftime_ymd (yr, mo, dy))
       \<and> row_timestamp (last (messages (send_message sender body None now db))) = now"
proof -
  from assms have iso: "is_iso_date (strftime_ymd (yr, mo, dy))" by (rule is_iso_date_strftime)
  then have ne: "strftime_ymd (yr, mo, dy) \<noteq> []" by (rule iso_date_nonempty)
  have ts: "row_timestamp (last (messages (send_message sender body
               (Some (strftime_ymd (yr, mo, dy))) now db)))
           = strftime_ymd (yr, mo, dy) @ '' 00:00:00''"
    using ne by (simp add: send_message_shape del: strftime_ymd.simps)
  have "row_timestamp (last (messages (send_message sender body None now db))) = now"
    by (simp add: send_message_shape)
  with ts sql_DATE_midnight [OF iso] show ?thesis by (simp only:)
qed

theorem explicit_date_at_midnight_witness:
  "row_timestamp (last (messages (send_message ''User 1'' ''hello'' (Some ''2025-03-01'')
       ''2026-11-04 09:30:00'' \<lparr>messages = [], seq = 0\<rparr>))) = ''2025-03-01 00:00:00''
   \<and> sql_DATE ''2025-03-01 00:00:00'' = Some ''2025-03-01''"
proof -
  have v: "valid_date (2025, 3, 1)" by (simp add: valid_date_def days_in_month_def)
  have y: "(2025::nat) \<le> 9999" by simp
  have s: "strftime_ymd (2025, 3, 1) = ''2025-03-01''"
    by (simp add: zero_pad4_def zero_pad2_def digit_char_numerals)
  let ?ts = "row_timestamp (last (messages (send_message ''User 1'' ''hello''
       (Some ''2025-03-01'') ''2026-11-04 09:30:00'' \<lparr>messages = [], seq = 0\<rparr>)))"
  from explicit_date_at_midnight [OF v y, of "''User 1''" "''hello''" "''2026-11-04 09:30:00''"
      "\<lparr>messages = [], seq = 0\<rparr>"]
  have a: "?ts = ''2025-03-01'' @ '' 00:00:00''" and b: "sql_DATE ?ts = Some ''2025-03-01''"
    unfolding s by blast+
  from a have c: "?ts = ''2025-03-01 00:00:00''" by simp
  from b have "sql_DATE ''2025-03-01 00:00:00'' = Some ''2025-03-01''" unfolding c .
  with c show ?thesis by blast
qed

lemma fold_max_ge: "a \<le> fold max xs (a::nat)"
proof (induction xs arbitrary: a)
  case Nil
  show ?case by simp
next
  case (Cons x xs)
  have "a \<le> max x a" by simp
  also have "\<dots> \<le> fold max xs (max x a)" by (rule Cons.IH)
  finally show ?case by simp
qed

lemma fold_max_member: "x \<in> set xs \<Longrightarrow> x \<le> fold max xs (a::nat)"
proof (induction xs arbitrary: a)
  case Nil
  then show ?case by simp
next
  case (Cons y xs)
  show ?case
  proof (cases "x = y")
    case True
    have "x \<le> max y a" using True by simp
    also have "\<dots> \<le> fold max xs (max y a)" by (rule fold_max_ge)
    finally show ?thesis by simp
  next
    case False
    with Cons.prems have "x \<in> set xs" by simp
    then show ?thesis using Cons.IH by simp
  qed
qed

lemma row_id_le_largest: "r \<in> set rs \<Longrightarrow> row_id r \<le> largest_rowid rs"
  unfolding largest_rowid_def by (rule fold_max_member) simp

lemma new_id_fresh:
  "Suc (max (seq db) (largest_rowid (messages db))) \<notin> row_id ` set (messages db)"
proof
  assume "Suc (max (seq db) (largest_rowid (messages db))) \<in> row_id ` set (messages db)"
  then obtain r where "r \<in> set (messages db)"
    "row_id r = Suc (max (seq db) (largest_rowid (messages db)))" by auto
  with row_id_le_largest [of r "messages db"] show False by simp
qed

lemma row_id_below_new:
  "r \<in> set (messages db) \<Longrightarrow> row_id r < Suc (max (seq db) (largest_rowid (messages db)))"
  using row_id_le_largest [of r "messages db"] by simp

lemma primary_key_send_message:
  "primary_key db \<Longrightarrow> primary_key (send_message sender body chat_date_str now db)"
  using new_id_fresh [of db] by (simp add: primary_key_def send_message_shape)

lemma row_ids_after_edit:
  "map row_id (map (\<lambda>r. if row_id r = k then r\<lparr>row_message := b\<rparr> else r) rs) = map row_id rs"
  by (induction rs) simp_all

lemma primary_key_edit_message:
  assumes "primary_key db"
  shows "primary_key (snd (edit_message k u b db))"
proof (cases "case fetch_sender k db of None \<Rightarrow> False | Some s \<Rightarrow> s = u")
  case True
  then have "messages (snd (edit_message k u b db)) =
      map (\<lambda>r. if row_id r = k then r\<lparr>row_message := b\<rparr> else r) (messages db)"
    by (simp add: edit_message_def)
  with assms show ?thesis by (simp only: primary_key_def row_ids_after_edit)
next
  case False
  then have "snd (edit_message k u b db) = db" by (simp add: edit_message_def)
  with assms show ?thesis by simp
qed

lemma primary_key_delete_message:
  "primary_key db \<Longrightarrow> primary_key (snd (delete_message k u db))"
  by (simp add: primary_key_def delete_message_def Let_def distinct_map_filter)

text \<open>
  Claim C8. For a date text \<open>d\<close>, \<^verbatim>\<open>get_messages\<close> returns exactly the stored rows
  whose timestamp's date is \<open>d\<close> (as a multiset: each as often as stored), ascending
  by id. The row a \<^verbatim>\<open>send_message\<close> appends has the given sender and body and an id
  that no stored row has and that is above the counter, and the listing for its date
  holds exactly one row with that id: the new row.
\<close>

theorem get_messages_of_date:
  assumes "d \<noteq> []"
  shows "sorted (map row_id (get_messages (Some d) db))
       \<and> mset (get_messages (Some d) db) =
           mset (filter (\<lambda>r. sql_DATE (row_timestamp r) = Some d) (messages db))
       \<and> (\<forall>new. new = last (messages (send_message sender body chat_date_str now db))
             \<longrightarrow> row_sender new = sender \<and> row_message new = body
               \<and> row_id new \<notin> row_id ` set (messages db) \<and> seq db < row_id new
               \<and> (sql_DATE (row_timestamp new) = Some d \<longrightarrow>
                    filter (\<lambda>r. row_id r = row_id new)
                      (get_messages (Some d) (send_message sender body chat_date_str now db))
                    = [new]))"
proof -
  have srt: "sorted (map row_id (get_messages (Some d) db))"
    using assms by (simp add: get_messages_def)
  have same: "mset (get_messages (Some d) db) =
           mset (filter (\<lambda>r. sql_DATE (row_timestamp r) = Some d) (messages db))"
    using assms by (simp add: get_messages_def)
  let ?nid = "Suc (max (seq db) (largest_rowid (messages db)))"
  let ?ts = "case chat_date_str of None \<Rightarrow> now
             | Some x \<Rightarrow> if x \<noteq> [] then x @ '' 00:00:00'' else now"
  let ?new = "\<lparr>row_id = ?nid, row_sender = sender, row_message = body, row_timestamp = ?ts\<rparr>"
  let ?db' = "send_message sender body chat_date_str now db"
  have msgs: "messages ?db' = messages db @ [?new]" by (simp add: send_message_shape)
  then have lst: "last (messages ?db') = ?new" by simp
  have fresh: "?nid \<notin> row_id ` set (messages db)" by (rule new_id_fresh)
  have none: "filter (\<lambda>r. row_id r = ?nid) (messages db) = []"
    by (auto simp: filter_empty_conv dest: row_id_below_new)
  have one: "sql_DATE ?ts = Some d \<longrightarrow>
      filter (\<lambda>r. row_id r = ?nid) (get_messages (Some d) ?db') = [?new]"
  proof
    assume date: "sql_DATE ?ts = Some d"
    have gm: "get_messages (Some d) ?db' =
        sort_key row_id (filter (\<lambda>r. sql_DATE (row_timestamp r) = Some d) (messages db @ [?new]))"
      using assms by (simp add: get_messages_def msgs)
    have "filter (\<lambda>r. row_id r = ?nid) (get_messages (Some d) ?db') =
        sort_key row_id (filter (\<lambda>r. row_id r = ?nid)
          (filter (\<lambda>r. sql_DATE (row_timestamp r) = Some d) (messages db @ [?new])))"
      by (simp only: gm filter_sort)
    also have "filter (\<lambda>r. row_id r = ?nid)
          (filter (\<lambda>r. sql_DATE (row_timestamp r) = Some d) (messages db @ [?new])) = [?new]"
    proof -
      have "filter (\<lambda>r. row_id r = ?nid)
          (filter (\<lambda>r. sql_DATE (row_timestamp r) = Some d) (messages db @ [?new]))
          = filter (\<lambda>r. sql_DATE (row_timestamp r) = Some d)
              (filter (\<lambda>r. row_id r = ?nid) (messages db) @ filter (\<lambda>r. row_id r = ?nid) [?new])"
        by (simp only: filter_filter filter_append conj_commute)
      also have "\<dots> = [?new]" using date unfolding none by simp
      finally show ?thesis .
    qed
    also have "sort_key row_id [?new] = [?new]" by simp
    finally show "filter (\<lambda>r. row_id r = ?nid) (get_messages (Some d) ?db') = [?new]" .
  qed
  have "seq db < ?nid" by simp
  with one fresh have "row_sender ?new = sender \<and> row_message ?new = body
               \<and> row_id ?new \<notin> row_id ` set (messages db) \<and> seq db < row_id ?new
               \<and> (sql_DATE (row_timestamp ?new) = Some d \<longrightarrow>
                    filter (\<lambda>r. row_id r = row_id ?new) (get_messages (Some d) ?db') = [?new])"
    by simp
  with srt same show ?thesis unfolding lst by blast
qed

lemma sql_DATE_example: "sql_DATE ''2025-03-01 00:00:00'' = Some ''2025-03-01''"
proof -
  have "valid_date (2025, 3, 1)" by (simp add: valid_date_def days_in_month_def)
  moreover have "(2025::nat) \<le> 9999" by simp
  ultimately have "is_iso_date (strftime_ymd (2025, 3, 1))" by (rule is_iso_date_strftime)
  moreover have "strftime_ymd (2025, 3, 1) = ''2025-03-01''"
    by (simp add: zero_pad4_def zero_pad2_def digit_char_numerals)
  ultimately have "is_iso_date ''2025-03-01''" by simp
  from sql_DATE_midnight [OF this] show ?thesis by simp
qed

theorem get_messages_of_date_witness:
  "sorted (map row_id (get_messages (Some ''2025-03-01'') \<lparr>messages = [], seq = 0\<rparr>))
   \<and> filter (\<lambda>r. row_id r = 1)
        (get_messages (Some ''2025-03-01'')
           (send_message ''User 1'' ''hello'' (Some ''2025-03-01'') ''2026-11-04 09:30:00''
              \<lparr>messages = [], seq = 0\<rparr>))
      = [\<lparr>row_id = 1, row_sender = ''User 1'', row_message = ''hello'',
           row_timestamp = ''2025-03-01 00:00:00''\<rparr>]"
proof -
  let ?db = "\<lparr>messages = [], seq = 0\<rparr>"
  let ?db' = "send_message ''User 1'' ''hello'' (Some ''2025-03-01'') ''2026-11-04 09:30:00'' ?db"
  let ?new = "\<lparr>row_id = 1, row_sender = ''User 1'', row_message = ''hello'',
           row_timestamp = ''2025-03-01 00:00:00''\<rparr>"
  have ne: "''2025-03-01'' \<noteq> []" by simp
  have lst: "last (messages ?db') = ?new"
    by (simp add: send_message_shape largest_rowid_def)
  note inst = get_messages_of_date [OF ne, of ?db "''User 1''" "''hello''" "Some ''2025-03-01''"
      "''2026-11-04 09:30:00''"]
  from inst have a: "sorted (map row_id (get_messages (Some ''2025-03-01'') ?db))" by blast
  from inst have "sql_DATE (row_timestamp (last (messages ?db'))) = Some ''2025-03-01'' \<longrightarrow>
      filter (\<lambda>r. row_id r = row_id (last (messages ?db'))) (get_messages (Some ''2025-03-01'') ?db')
        = [last (messages ?db')]"
    by blast
  then have "filter (\<lambda>r. row_id r = 1) (get_messages (Some ''2025-03-01'') ?db') = [?new]"
    unfolding lst using sql_DATE_example by simp
  with a show ?thesis by blast
qed

lemma strip_empty_iff: "strip s = [] \<longleftrightarrow> list_all isspace s"
proof
  assume "strip s = []"
  then have all: "\<forall>c \<in> set (dropWhile isspace s). isspace c"
    by (simp add: strip_def dropWhile_eq_Nil_conv)
  have "dropWhile isspace s = []"
  proof (rule ccontr)
    assume ne: "dropWhile isspace s \<noteq> []"
    then have "\<not> isspace (hd (dropWhile isspace s))" by (rule hd_dropWhile)
    moreover from ne have "hd (dropWhile isspace s) \<in> set (dropWhile isspace s)" by simp
    ultimately show False using all by blast
  qed
  then show "list_all isspace s" by (simp add: dropWhile_eq_Nil_conv list_all_iff)
next
  assume "list_all isspace s"
  then have "dropWhile isspace s = []" by (simp add: dropWhile_eq_Nil_conv list_all_iff)
  then show "strip s = []" by (simp only: strip_def rev.simps dropWhile.simps)
qed

text \<open>
  Claim C6, as the code has it. \<^verbatim>\<open>send_message\<close> checks nothing: for every body,
  the blank ones too, it appends one row with that sender and body. The check is the
  caller's: the send form stores nothing and shows nothing when the input is blank,
  and otherwise stores the stripped input.
\<close>

theorem send_message_takes_any_body:
  "messages (send_message sender body chat_date_str now db) =
     messages db @ [last (messages (send_message sender body chat_date_str now db))]
   \<and> row_sender (last (messages (send_message sender body chat_date_str now db))) = sender
   \<and> row_message (last (messages (send_message sender body chat_date_str now db))) = body
   \<and> (list_all isspace msg \<longrightarrow>
         submit_send username msg selected_date_str today_str now db = ([], db))
   \<and> (\<not> list_all isspace msg \<longrightarrow>
         submit_send username msg selected_date_str today_str now db =
           ([St_success ''Message sent!''],
            send_message username (strip msg)
              (if selected_date_str \<noteq> today_str then Some selected_date_str else None) now db))"
proof -
  have "messages (send_message sender body chat_date_str now db) =
     messages db @ [last (messages (send_message sender body chat_date_str now db))]"
    "row_sender (last (messages (send_message sender body chat_date_str now db))) = sender"
    "row_message (last (messages (send_message sender body chat_date_str now db))) = body"
    by (simp_all add: send_message_shape)
  moreover have "list_all isspace msg \<longrightarrow>
         submit_send username msg selected_date_str today_str now db = ([], db)"
    by (simp add: submit_send_def strip_empty_iff)
  moreover have "\<not> list_all isspace msg \<longrightarrow>
         submit_send username msg selected_date_str today_str now db =
           ([St_success ''Message sent!''],
            send_message username (strip msg)
              (if selected_date_str \<noteq> today_str then Some selected_date_str else None) now db)"
    by (simp add: submit_send_def strip_empty_iff)
  ultimately show ?thesis by blast
qed

theorem send_message_takes_any_body_witness:
  "row_message (last (messages (send_message ''User 1'' ''  '' None ''2026-11-04 09:30:00''
      \<lparr>messages = [], seq = 0\<rparr>))) = ''  ''
   \<and> submit_send ''User 1'' ''  '' ''2025-03-01'' ''2026-11-04'' ''2026-11-04 09:30:00''
        \<lparr>messages = [], seq = 0\<rparr> = ([], \<lparr>messages = [], seq = 0\<rparr>)"
proof -
  have blank: "list_all isspace ''  ''" by (simp add: isspace_def)
  from send_message_takes_any_body [of "''User 1''" "''  ''" None "''2026-11-04 09:30:00''"
      "\<lparr>messages = [], seq = 0\<rparr>" "''  ''" "''User 1''" "''2025-03-01''" "''2026-11-04''"]
    blank
  show ?thesis by blast
qed

text \<open>
  Claim C6 as stated fails: \<^verbatim>\<open>send_message\<close> stores a body of two spaces, and an
  empty one.
\<close>

theorem blank_body_is_stored:
  "send_message ''User 1'' ''  '' None ''2026-11-04 09:30:00'' \<lparr>messages = [], seq = 0\<rparr> =
     \<lparr>messages = [\<lparr>row_id = 1, row_sender = ''User 1'', row_message = ''  '',
                    row_timestamp = ''2026-11-04 09:30:00''\<rparr>], seq = 1\<rparr>
   \<and> send_message ''User 1'' [] None ''2026-11-04 09:30:00'' \<lparr>messages = [], seq = 0\<rparr> =
     \<lparr>messages = [\<lparr>row_id = 1, row_sender = ''User 1'', row_message = [],
                    row_timestamp = ''2026-11-04 09:30:00''\<rparr>], seq = 1\<rparr>"
  by (simp add: send_message_shape largest_rowid_def)

section \<open>Loading the mapping and looking a date up\<close>

lemma makedirs_data_existing: "data_dir fs \<Longrightarrow> makedirs_data fs = fs"
  by (simp add: makedirs_data_def)

text \<open>
  Claim C1. When the mapping file exists and holds a mapping, \<^verbatim>\<open>load_question_mapping\<close>
  returns that mapping, shows nothing and leaves the files as they are, whatever the
  workbook, the shuffle and today's date; a second call on the files the first one left,
  with another workbook, shuffle and date, returns the same mapping again.
\<close>

theorem load_question_mapping_idempotent:
  assumes "data_dir fs" and "mapping_file fs = Some (Parsed m)"
  shows "load_question_mapping xl1 shuffle1 today1 fs = (Inr m, [], fs)
       \<and> load_question_mapping xl2 shuffle2 today2
            (snd (snd (load_question_mapping xl1 shuffle1 today1 fs))) = (Inr m, [], fs)"
proof -
  have once: "load_question_mapping xl sh td fs = (Inr m, [], fs)" for xl sh td
    using assms by (simp add: load_question_mapping_def makedirs_data_existing)
  then show ?thesis by simp
qed

theorem load_question_mapping_idempotent_witness:
  "load_question_mapping (Workbook [[[Some ''A'']]]) rev (2025, 3, 1)
     \<lparr>data_dir = True, mapping_file = Some (Parsed [(''2024-01-01'', ''Q'')])\<rparr>
   = (Inr [(''2024-01-01'', ''Q'')], [],
      \<lparr>data_dir = True, mapping_file = Some (Parsed [(''2024-01-01'', ''Q'')])\<rparr>)
   \<and> load_question_mapping Unreadable (\<lambda>qs. qs) (2026, 11, 4)
        (snd (snd (load_question_mapping (Workbook [[[Some ''A'']]]) rev (2025, 3, 1)
           \<lparr>data_dir = True, mapping_file = Some (Parsed [(''2024-01-01'', ''Q'')])\<rparr>)))
   = (Inr [(''2024-01-01'', ''Q'')], [],
      \<lparr>data_dir = True, mapping_file = Some (Parsed [(''2024-01-01'', ''Q'')])\<rparr>)"
proof -
  let ?fs = "\<lparr>data_dir = True, mapping_file = Some (Parsed [(''2024-01-01'', ''Q'')])\<rparr>"
  have a: "data_dir ?fs" by simp
  have b: "mapping_file ?fs = Some (Parsed [(''2024-01-01'', ''Q'')])" by simp
  show ?thesis
    by (rule load_question_mapping_idempotent [OF a b])
qed

text \<open>
  Claim C10. When the mapping file exists and cannot be parsed or read,
  \<^verbatim>\<open>load_question_mapping\<close> returns the empty mapping with an error notice, raising
  nothing; and whenever the file exists, whatever it holds, the files are the same after
  the call: nothing is regenerated, overwritten or deleted. So the files change only
  when the mapping file was absent.
\<close>

theorem unparseable_file_is_kept:
  assumes "data_dir fs"
  shows "(mapping_file fs = Some Unparseable \<longrightarrow>
            load_question_mapping xl shuffle today fs =
              (Inr [], [St_error ''Error loading date-question mapping: ''], fs))
       \<and> (mapping_file fs \<noteq> None \<longrightarrow>
            snd (snd (load_question_mapping xl shuffle today fs)) = fs)"
proof -
  have "mapping_file fs = Some Unparseable \<longrightarrow>
            load_question_mapping xl shuffle today fs =
              (Inr [], [St_error ''Error loading date-question mapping: ''], fs)"
    using assms by (simp add: load_question_mapping_def makedirs_data_existing)
  moreover have "mapping_file fs \<noteq> None \<longrightarrow>
            snd (snd (load_question_mapping xl shuffle today fs)) = fs"
  proof
    assume "mapping_file fs \<noteq> None"
    then obtain c where c: "mapping_file fs = Some c" by auto
    show "snd (snd (load_question_mapping xl shuffle today fs)) = fs"
      using assms c by (cases c) (simp_all add: load_question_mapping_def makedirs_data_existing)
  qed
  ultimately show ?thesis by blast
qed

theorem unparseable_file_is_kept_witness:
  "load_question_mapping (Workbook [[[Some ''A'']]]) rev (2025, 3, 1)
     \<lparr>data_dir = True, mapping_file = Some Unparseable\<rparr>
   = (Inr [], [St_error ''Error loading date-question mapping: ''],
      \<lparr>data_dir = True, mapping_file = Some Unparseable\<rparr>)"
proof -
  have a: "data_dir \<lparr>data_dir = True, mapping_file = Some Unparseable\<rparr>" by simp
  from unparseable_file_is_kept [OF a, of "Workbook [[[Some ''A'']]]" rev "(2025, 3, 1)"]
  show ?thesis by simp
qed

lemma load_and_assign_questions_empty_pool:
  assumes "read_questions xl = Some loaded" and "shuffle loaded = []"
  shows "load_and_assign_questions xl shuffle today fs = (Inl ZeroDivisionError, [], fs)"
proof -
  have "[0..<(if is_leap_year (fst today) then 366 else 365)] \<noteq> []" by simp
  then have "assign_days [] today [0..<(if is_leap_year (fst today) then 366 else 365)] []
      = Inl ZeroDivisionError"
    by (rule assign_days_empty_pool)
  with assms show ?thesis by (simp add: load_and_assign_questions_def Let_def)
qed

text \<open>
  Claim C5 at a workbook whose only first column holds no question: the modulo by the
  pool's length raises ZeroDivisionError, which nothing catches, so it leaves
  \<^verbatim>\<open>load_and_assign_questions\<close> and \<^verbatim>\<open>load_question_mapping\<close>; no mapping is
  returned and no file is written. An unreadable workbook, beside it, is reported and
  gives the empty mapping.
\<close>

theorem empty_pool_raises_zero_division:
  "load_and_assign_questions (Workbook [[[None, None]]]) (\<lambda>qs. qs) (2025, 11, 4)
     \<lparr>data_dir = True, mapping_file = None\<rparr>
   = (Inl ZeroDivisionError, [], \<lparr>data_dir = True, mapping_file = None\<rparr>)
   \<and> load_question_mapping (Workbook [[[None, None]]]) (\<lambda>qs. qs) (2025, 11, 4)
     \<lparr>data_dir = True, mapping_file = None\<rparr>
   = (Inl ZeroDivisionError, [St_info ''Initializing date-question mapping...''],
      \<lparr>data_dir = True, mapping_file = None\<rparr>)
   \<and> load_question_mapping Unreadable (\<lambda>qs. qs) (2025, 11, 4)
     \<lparr>data_dir = True, mapping_file = None\<rparr>
   = (Inr [], [St_info ''Initializing date-question mapping...'',
               St_error ''Error reading Excel file: '',
               St_error ''Failed to initialize date-question mapping.''],
      \<lparr>data_dir = True, mapping_file = None\<rparr>)"
proof -
  have r: "read_questions (Workbook [[[None, None]]]) = Some []"
    by (simp add: List.map_filter_simps)
  have s: "(\<lambda>qs::string list. qs) [] = []" by simp
  have a: "load_and_assign_questions (Workbook [[[None, None]]]) (\<lambda>qs. qs) (2025, 11, 4)
     \<lparr>data_dir = True, mapping_file = None\<rparr>
   = (Inl ZeroDivisionError, [], \<lparr>data_dir = True, mapping_file = None\<rparr>)"
    using r s by (rule load_and_assign_questions_empty_pool)
  have b: "load_and_assign_questions Unreadable (\<lambda>qs. qs) (2025, 11, 4)
     \<lparr>data_dir = True, mapping_file = None\<rparr>
   = (Inr [], [St_error ''Error reading Excel file: ''], \<lparr>data_dir = True, mapping_file = None\<rparr>)"
    by (simp add: load_and_assign_questions_def)
  show ?thesis
    unfolding a by (simp add: load_question_mapping_def makedirs_data_def a b)
qed

lemma zero_pad4_inj:
  assumes "a < 10000" "b < 10000" "zero_pad4 a = zero_pad4 b"
  shows "a = b"
proof -
  from assms(3) have "digits_val (zero_pad4 a) = digits_val (zero_pad4 b)" by simp
  with assms(1,2) show ?thesis by (simp add: digits_val_zero_pad4)
qed

lemma strftime_ymd_year:
  assumes "yr \<le> 9999" "yr' \<le> 9999"
    and "strftime_ymd (yr, mo, dy) = strftime_ymd (yr', mo', dy')"
  shows "yr = yr'"
proof -
  have "take 4 (strftime_ymd (yr, mo, dy)) = zero_pad4 yr"
    "take 4 (strftime_ymd (yr', mo', dy')) = zero_pad4 yr'"
    by (simp_all add: zero_pad4_def)
  with assms(3) have "zero_pad4 yr = zero_pad4 yr'" by simp
  moreover from assms(1,2) have "yr < 10000" "yr' < 10000" by simp_all
  ultimately show ?thesis by (simp add: zero_pad4_inj)
qed

lemma year_entries_keys:
  assumes "k \<in> fst ` set (year_entries qs yr)"
  obtains mo dy where "k = strftime_ymd (yr, mo, dy)" "valid_date (yr, mo, dy)"
proof -
  from assms obtain n where n: "n < year_length yr" "k = strftime_ymd (add_days (yr, 1, 1) n)"
    by (auto simp: year_entries_def)
  from n(1) obtain mo dy where "add_days (yr, 1, 1) n = (yr, mo, dy)" "valid_date (yr, mo, dy)"
    by (rule add_days_jan1_date)
  with n(2) that show thesis by simp
qed

lemma load_and_assign_questions_result:
  assumes "load_and_assign_questions xl shuffle (yr, tmo, tdy) fs = (Inr m, shown, fs')"
  shows "m = [] \<or> (\<exists>qs. m = year_entries qs yr)"
proof (cases "read_questions xl")
  case None
  with assms show ?thesis by (simp add: load_and_assign_questions_def)
next
  case (Some loaded)
  show ?thesis
  proof (cases "shuffle loaded = []")
    case True
    with Some assms load_and_assign_questions_empty_pool [of xl loaded shuffle "(yr, tmo, tdy)" fs]
    show ?thesis by simp
  next
    case False
    show ?thesis
    proof (cases "data_dir fs")
      case True
      from load_and_assign_questions_entries [where shuffle = shuffle and yr = yr and tmo = tmo and tdy = tdy,
          OF Some False True] assms
      show ?thesis by auto
    next
      case dir: False
      have "(if is_leap_year yr then 366 else 365) = year_length yr"
        by (simp add: year_length_is_leap_year)
      then have "assign_days (shuffle loaded) (yr, tmo, tdy)
          [0..<(if is_leap_year yr then 366 else 365)] [] = Inr (year_entries (shuffle loaded) yr)"
        using assign_days_year [OF False, of yr tmo tdy] by (simp only: year_entries_def)
      with Some dir assms show ?thesis by (simp add: load_and_assign_questions_def Let_def)
    qed
  qed
qed

text \<open>
  Claim C9. The lookup of line 271 gives the text "No question available for this date."
  for every date text that is no key of the mapping; for every date text it gives either
  that text or the question stored under the key; and for a mapping that
  \<^verbatim>\<open>load_and_assign_questions\<close> returned in year \<open>yr\<close>, the text of every date of
  another year gets the "no question" text.
\<close>

theorem daily_question_outside_mapping:
  "(selected \<notin> fst ` set mapping \<longrightarrow>
      daily_question mapping selected = ''No question available for this date.'')
   \<and> (daily_question mapping selected = ''No question available for this date.''
        \<or> (selected, daily_question mapping selected) \<in> set mapping)
   \<and> (load_and_assign_questions xl shuffle (yr, tmo, tdy) fs = (Inr m, shown, fs')
        \<and> yr \<le> 9999 \<and> yr' \<le> 9999 \<and> yr' \<noteq> yr \<longrightarrow>
      daily_question m (strftime_ymd (yr', mo', dy')) = ''No question available for this date.'')"
proof -
  have absent: "daily_question mp k = ''No question available for this date.''"
    if "k \<notin> fst ` set mp" for mp k
  proof -
    from that have "map_of mp k = None" by (simp add: map_of_eq_None_iff)
    then show ?thesis by (simp add: daily_question_def)
  qed
  have either: "daily_question mapping selected = ''No question available for this date.''
        \<or> (selected, daily_question mapping selected) \<in> set mapping"
  proof (cases "map_of mapping selected")
    case None
    then show ?thesis by (simp add: daily_question_def)
  next
    case (Some q)
    then have "(selected, q) \<in> set mapping" by (rule map_of_SomeD)
    with Some show ?thesis by (simp add: daily_question_def)
  qed
  have other_year: "daily_question m (strftime_ymd (yr', mo', dy')) =
      ''No question available for this date.''"
    if run: "load_and_assign_questions xl shuffle (yr, tmo, tdy) fs = (Inr m, shown, fs')"
      and y: "yr \<le> 9999" "yr' \<le> 9999" "yr' \<noteq> yr"
  proof (rule absent, rule notI)
    assume key: "strftime_ymd (yr', mo', dy') \<in> fst ` set m"
    from load_and_assign_questions_result [OF run] key
    obtain qs where "strftime_ymd (yr', mo', dy') \<in> fst ` set (year_entries qs yr)" by auto
    then obtain mo dy where "strftime_ymd (yr', mo', dy') = strftime_ymd (yr, mo, dy)"
      by (rule year_entries_keys)
    with y(1,2) have "yr' = yr" by (intro strftime_ymd_year) simp_all
    with y(3) show False by simp
  qed
  from absent [of selected mapping] either other_year show ?thesis by blast
qed

theorem daily_question_outside_mapping_witness:
  "daily_question [(''2025-03-01'', ''Q'')] ''2024-03-01'' = ''No question available for this date.''
   \<and> daily_question [(''2025-03-01'', ''Q'')] ''2025-03-01'' = ''Q''
   \<and> daily_question (year_entries (rev [''A'']) 2025) ''2024-03-01'' =
       ''No question available for this date.''"
proof -
  have "''2024-03-01'' \<notin> fst ` set [(''2025-03-01'', ''Q'')]" by simp
  with daily_question_outside_mapping [of "''2024-03-01''" "[(''2025-03-01'', ''Q'')]"]
  have a: "daily_question [(''2025-03-01'', ''Q'')] ''2024-03-01'' =
      ''No question available for this date.''"
    by blast
  have b: "daily_question [(''2025-03-01'', ''Q'')] ''2025-03-01'' = ''Q''"
    by (simp add: daily_question_def)
  have r: "read_questions (Workbook [[[Some ''A'']]]) = Some [''A'']"
    by (simp add: List.map_filter_simps)
  have ne: "rev [''A''] \<noteq> []" by simp
  have d: "data_dir \<lparr>data_dir = True, mapping_file = None\<rparr>" by simp
  note run = load_and_assign_questions_entries [where shuffle = rev and yr = 2025 and tmo = 11
      and tdy = 4, OF r ne d]
  have y: "(2025::nat) \<le> 9999" "(2024::nat) \<le> 9999" "(2024::nat) \<noteq> 2025" by simp_all
  have s: "strftime_ymd (2024, 3, 1) = ''2024-03-01''"
    by (simp add: zero_pad4_def zero_pad2_def digit_char_numerals)
  from daily_question_outside_mapping [where yr = 2025 and yr' = 2024 and mo' = 3 and dy' = 1
      and xl = "Workbook [[[Some ''A'']]]" and shuffle = rev and tmo = 11 and tdy = 4
      and fs = "\<lparr>data_dir = True, mapping_file = None\<rparr>"
      and m = "year_entries (rev [''A'']) 2025"] run y
  have "daily_question (year_entries (rev [''A'']) 2025) (strftime_ymd (2024, 3, 1)) =
      ''No question available for this date.''"
    by blast
  then have c: "daily_question (year_entries (rev [''A'']) 2025) ''2024-03-01'' =
      ''No question available for this date.''"
    unfolding s .
  from a b c show ?thesis by blast
qed

end
